theory Spec2Isabelle
  imports Main
begin

section \<open>lsreader: the process locator and the Local Storage accessor\<close>

text \<open>
  A shallow embedding of \<^verbatim>\<open>src/lsreader.py\<close>. Python strings are \<open>string\<close>; every
  exception the module can meet is a value of \<open>error\<close>, and a call that may raise
  returns \<open>error + 'a\<close> with \<open>Inl\<close> for the exception. The operating system, psutil
  and sqlite3 are not code of the module: what they answer is read from a \<open>world\<close>
  record, so every theorem holds for whatever they answer. A world is one
  snapshot: processes, files and table rows do not change between two calls made
  in the same world. The import-time check of \<^verbatim>\<open>os.name\<close> is taken as passed.
\<close>

subsection \<open>Exceptions\<close>

datatype error =
    AccessDenied
  | NoSuchProcess
  | KeyError
  | IndexError
  | TypeError
  | AttributeError
  | OSError
  | OperationalError
  | ProgrammingError
  | DatabaseError

subsection \<open>Values read from a database row\<close>

text \<open>
  What the sqlite3 driver hands back for a column: \<^verbatim>\<open>None\<close> for NULL, an \<^verbatim>\<open>int\<close>,
  a \<^verbatim>\<open>str\<close> or a \<^verbatim>\<open>bytes\<close> (a list of byte values). REAL columns are not
  modelled. \<open>truthy\<close> is Python's truth test on such a value.
\<close>

datatype pyval = PNone | PInt int | PStr string | PBytes "nat list"

fun truthy :: "pyval \<Rightarrow> bool" where
  "truthy PNone = False"
| "truthy (PInt i) = (i \<noteq> 0)"
| "truthy (PStr s) = (s \<noteq> [])"
| "truthy (PBytes b) = (b \<noteq> [])"

subsection \<open>String and path functions of the Python library\<close>

text \<open>\<^verbatim>\<open>s.startswith(p)\<close>, \<^verbatim>\<open>s.endswith(p)\<close> and \<^verbatim>\<open>sub in s\<close>.\<close>

fun startswith :: "string \<Rightarrow> string \<Rightarrow> bool" where
  "startswith s [] = True"
| "startswith [] (p # ps) = False"
| "startswith (c # cs) (p # ps) = (c = p \<and> startswith cs ps)"

definition endswith :: "string \<Rightarrow> string \<Rightarrow> bool" where
  "endswith s p = startswith (rev s) (rev p)"

fun str_contains :: "string \<Rightarrow> string \<Rightarrow> bool" where
  "str_contains sub [] = (sub = [])"
| "str_contains sub (c # cs) = (startswith (c # cs) sub \<or> str_contains sub cs)"

text \<open>
  \<^verbatim>\<open>posixpath.join(a, b)\<close> for one component: an absolute \<open>b\<close> replaces \<open>a\<close>;
  otherwise a separator is put between them unless \<open>a\<close> is empty or already ends
  with one.
\<close>

definition path_join :: "string \<Rightarrow> string \<Rightarrow> string" where
  "path_join a b =
     (if startswith b ''/'' then b
      else if a = [] \<or> endswith a ''/'' then a @ b
      else a @ ''/'' @ b)"

text \<open>
  \<^verbatim>\<open>posixpath.dirname\<close>: \<^verbatim>\<open>i = p.rfind('/') + 1; head = p[:i]\<close>, and the trailing
  slashes of \<open>head\<close> are stripped unless \<open>head\<close> is empty or slashes only.
  \<^verbatim>\<open>posixpath.basename\<close> is \<^verbatim>\<open>p[i:]\<close>.
\<close>

definition rstrip_sep :: "string \<Rightarrow> string" where
  "rstrip_sep s = rev (dropWhile (\<lambda>c. c = CHR ''/'') (rev s))"

definition dirname :: "string \<Rightarrow> string" where
  "dirname p =
     (let head = rev (dropWhile (\<lambda>c. c \<noteq> CHR ''/'') (rev p))
      in if head \<noteq> [] \<and> head \<noteq> replicate (length head) (CHR ''/'')
         then rstrip_sep head else head)"

definition basename :: "string \<Rightarrow> string" where
  "basename p = rev (takeWhile (\<lambda>c. c \<noteq> CHR ''/'') (rev p))"

text \<open>\<^verbatim>\<open>str(n)\<close> for a process id, as the f-string of \<^verbatim>\<open>list_open_files\<close> formats it.\<close>

fun str_nat :: "nat \<Rightarrow> string" where
  "str_nat n =
     (if n < 10 then [''0123456789'' ! n]
      else str_nat (n div 10) @ [''0123456789'' ! (n mod 10)])"

declare str_nat.simps [simp del]

subsection \<open>The environment\<close>

text \<open>
  A psutil process handle: its pid, and what \<^verbatim>\<open>proc.username()\<close> and
  \<^verbatim>\<open>proc.exe()\<close> answer (both may raise \<^verbatim>\<open>AccessDenied\<close> or \<^verbatim>\<open>NoSuchProcess\<close>).
\<close>

record process =
  pid :: nat
  username :: "error + string"
  exe :: "error + string"

text \<open>
  The answers of the operating system and of sqlite3:
  \<^item> \<open>process_iter\<close>: the handles \<^verbatim>\<open>psutil.process_iter()\<close> produces, in order;
  \<^item> \<open>environ\<close>: \<^verbatim>\<open>os.environ\<close>;
  \<^item> \<open>realpath\<close>, \<open>listdir\<close>, \<open>readlink\<close>: the \<^verbatim>\<open>os\<close> calls of these names;
  \<^item> \<open>sqlite_open\<close>: the exception \<^verbatim>\<open>sqlite3.connect(path)\<close> raises, if any;
  \<^item> \<open>item_table\<close>: the rows \<open>(key, value)\<close> of \<^verbatim>\<open>ItemTable\<close> in the database
    file at a path, in scan order, or the exception a query on it raises.
\<close>

record world =
  process_iter :: "process list"
  environ :: "string \<rightharpoonup> string"
  realpath :: "string \<Rightarrow> string"
  listdir :: "string \<Rightarrow> error + string list"
  readlink :: "string \<Rightarrow> error + string"
  sqlite_open :: "string \<Rightarrow> error option"
  item_table :: "string \<Rightarrow> error + (string \<times> pyval) list"

subsection \<open>Process locator\<close>

text \<open>
  A generator is modelled by what it produces when run to its end: the values
  yielded, in order, and the exception that ended it, if one did.
\<close>

type_synonym 'a generated = "'a list \<times> error option"

definition yield :: "'a \<Rightarrow> 'a generated \<Rightarrow> 'a generated" where
  "yield x g = (x # fst g, snd g)"

text \<open>
  The test \<^verbatim>\<open>any_user or proc.username() == os.environ['USER']\<close>: \<^verbatim>\<open>or\<close> skips its
  right operand when \<open>any_user\<close> holds; otherwise \<^verbatim>\<open>proc.username()\<close> is
  evaluated first and the environment lookup second.
\<close>

definition owner_test :: "world \<Rightarrow> bool \<Rightarrow> process \<Rightarrow> error + bool" where
  "owner_test w any_user proc =
     (if any_user then Inr True
      else (case username proc of
              Inl e \<Rightarrow> Inl e
            | Inr u \<Rightarrow> (case environ w ''USER'' of
                          None \<Rightarrow> Inl KeyError
                        | Some cu \<Rightarrow> Inr (u = cu))))"

text \<open>
  The body of \<^verbatim>\<open>for proc in psutil.process_iter()\<close>. The owner test stands before
  the \<^verbatim>\<open>try\<close>, so an exception of it ends the generator; inside the \<^verbatim>\<open>try\<close>,
  \<^verbatim>\<open>AccessDenied\<close> of \<^verbatim>\<open>proc.exe()\<close> is caught and the loop goes on, any other
  exception ends the generator.
\<close>

fun search_loop ::
  "world \<Rightarrow> (string \<Rightarrow> string \<Rightarrow> bool) \<Rightarrow> bool \<Rightarrow> process list \<Rightarrow> process generated"
where
  "search_loop w process_filter any_user [] = ([], None)"
| "search_loop w process_filter any_user (proc # procs) =
     (case owner_test w any_user proc of
        Inl e \<Rightarrow> ([], Some e)
      | Inr False \<Rightarrow> search_loop w process_filter any_user procs
      | Inr True \<Rightarrow>
          (case exe proc of
             Inl e \<Rightarrow>
               (if e = AccessDenied then search_loop w process_filter any_user procs
                else ([], Some e))
           | Inr x \<Rightarrow>
               (let ex = realpath w x
                in if process_filter ex (basename ex)
                   then yield proc (search_loop w process_filter any_user procs)
                   else search_loop w process_filter any_user procs)))"

definition search_processes ::
  "world \<Rightarrow> (string \<Rightarrow> string \<Rightarrow> bool) \<Rightarrow> bool \<Rightarrow> process generated"
where
  "search_processes w process_filter any_user =
     search_loop w process_filter any_user (process_iter w)"

text \<open>
  \<^verbatim>\<open>list_open_files\<close>: \<^verbatim>\<open>os.listdir\<close> runs when the generator is first advanced
  (the outer result); each element is the result of one \<^verbatim>\<open>os.readlink\<close>, made
  only when the consumer asks for that element.
\<close>

definition list_open_files :: "world \<Rightarrow> process \<Rightarrow> error + (error + string) list" where
  "list_open_files w proc =
     (let fdir = ''/proc/'' @ str_nat (pid proc) @ ''/fd''
      in case listdir w fdir of
           Inl e \<Rightarrow> Inl e
         | Inr fs \<Rightarrow> Inr (map (\<lambda>f. readlink w (path_join fdir f)) fs))"

text \<open>
  The loop of \<^verbatim>\<open>find_local_storage\<close> over that generator: it returns at the first
  path name that contains \<^verbatim>\<open>Local Storage\<close>, and an element that raises ends it.
\<close>

fun find_loop :: "(error + string) list \<Rightarrow> error + string option" where
  "find_loop [] = Inr None"
| "find_loop (Inl e # rest) = Inl e"
| "find_loop (Inr f # rest) =
     (if str_contains ''Local Storage'' f then Inr (Some (dirname f))
      else find_loop rest)"

definition find_local_storage :: "world \<Rightarrow> process \<Rightarrow> error + string option" where
  "find_local_storage w proc =
     (case list_open_files w proc of
        Inl e \<Rightarrow> Inl e
      | Inr files \<Rightarrow> find_loop files)"

subsection \<open>Connection objects\<close>

text \<open>
  A \<^verbatim>\<open>sqlite3.Connection\<close> is an object with an identity: the store maps a
  reference to the object's fields (the file it was opened on, and whether
  \<^verbatim>\<open>close()\<close> was called on it), and \<open>next_ref\<close> is the reference the next new
  object gets. A connection object is always true in a Python condition.
\<close>

record sqlite_conn =
  db_path :: string
  is_closed :: bool

record heap =
  objs :: "nat \<Rightarrow> sqlite_conn"
  next_ref :: nat

definition sqlite3_connect :: "world \<Rightarrow> heap \<Rightarrow> string \<Rightarrow> error + (nat \<times> heap)" where
  "sqlite3_connect w h path =
     (case sqlite_open w path of
        Some e \<Rightarrow> Inl e
      | None \<Rightarrow>
          Inr (next_ref h,
               h\<lparr>objs := (objs h)(next_ref h := \<lparr>db_path = path, is_closed = False\<rparr>),
                 next_ref := Suc (next_ref h)\<rparr>))"

definition Connection_close :: "heap \<Rightarrow> nat \<Rightarrow> heap" where
  "Connection_close h c = h\<lparr>objs := (objs h)(c := (objs h c)\<lparr>is_closed := True\<rparr>)\<rparr>"

text \<open>
  \<^verbatim>\<open>SELECT * FROM ItemTable\<close> and \<^verbatim>\<open>SELECT value FROM ItemTable WHERE key=?\<close> on
  a connection; sqlite3 raises \<^verbatim>\<open>ProgrammingError\<close> on a closed one.
\<close>

definition select_all :: "world \<Rightarrow> heap \<Rightarrow> nat \<Rightarrow> error + (string \<times> pyval) list" where
  "select_all w h c =
     (if is_closed (objs h c) then Inl ProgrammingError
      else item_table w (db_path (objs h c)))"

definition select_value :: "world \<Rightarrow> heap \<Rightarrow> nat \<Rightarrow> string \<Rightarrow> error + pyval list" where
  "select_value w h c key =
     (case select_all w h c of
        Inl e \<Rightarrow> Inl e
      | Inr rows \<Rightarrow> Inr (map snd (filter (\<lambda>row. fst row = key) rows)))"

definition fetchone :: "'a list \<Rightarrow> 'a option" where
  "fetchone rows = (case rows of [] \<Rightarrow> None | row # _ \<Rightarrow> Some row)"

subsection \<open>Local Storage accessor\<close>

record LocalStorage =
  storage :: string
  site :: string
  proto :: string
  connection :: "nat option"

definition LocalStorage_init :: "string \<Rightarrow> string \<Rightarrow> string \<Rightarrow> LocalStorage" where
  "LocalStorage_init site' storage' proto' =
     \<lparr>storage = storage', site = site', proto = proto', connection = None\<rparr>"

text \<open>
  A method takes the store and the accessor and returns its result with the
  store and the accessor as it leaves them, also when it raises.
\<close>

type_synonym state = "heap \<times> LocalStorage"

text \<open>
  The test of \<^verbatim>\<open>connect\<close> on a directory entry, and its loop over the entries
  \<^verbatim>\<open>os.listdir\<close> returned: the first entry that passes is opened, stored in
  \<^verbatim>\<open>self.connection\<close> and returned; an exception of \<^verbatim>\<open>sqlite3.connect\<close> leaves
  the accessor as it was.
\<close>

definition name_matches :: "LocalStorage \<Rightarrow> string \<Rightarrow> bool" where
  "name_matches self f =
     (startswith f (proto self @ ''_'' @ site self @ ''_'') \<and> endswith f ''.localstorage'')"

fun connect_loop :: "world \<Rightarrow> state \<Rightarrow> string list \<Rightarrow> (error + nat option) \<times> state" where
  "connect_loop w (h, self) [] = (Inr None, (h, self))"
| "connect_loop w (h, self) (f # fs) =
     (if name_matches self f then
        (case sqlite3_connect w h (path_join (storage self) f) of
           Inl e \<Rightarrow> (Inl e, (h, self))
         | Inr (c, h') \<Rightarrow> (Inr (Some c), (h', self\<lparr>connection := Some c\<rparr>)))
      else connect_loop w (h, self) fs)"

fun connect :: "world \<Rightarrow> state \<Rightarrow> (error + nat option) \<times> state" where
  "connect w (h, self) =
     (case connection self of
        Some c \<Rightarrow> (Inr (Some c), (h, self))
      | None \<Rightarrow>
          (case listdir w (storage self) of
             Inl e \<Rightarrow> (Inl e, (h, self))
           | Inr fs \<Rightarrow> connect_loop w (h, self) fs))"

text \<open>
  \<^verbatim>\<open>read\<close>: \<^verbatim>\<open>con.execute\<close> on \<^verbatim>\<open>None\<close> is an \<^verbatim>\<open>AttributeError\<close>; the dictionary
  is filled row by row, a later row overwriting an earlier one of the same key.
\<close>

definition read :: "world \<Rightarrow> state \<Rightarrow> (error + (string \<rightharpoonup> pyval)) \<times> state" where
  "read w st =
     (case connect w st of
        (Inl e, st') \<Rightarrow> (Inl e, st')
      | (Inr None, st') \<Rightarrow> (Inl AttributeError, st')
      | (Inr (Some con), st') \<Rightarrow>
          (case select_all w (fst st') con of
             Inl e \<Rightarrow> (Inl e, st')
           | Inr rows \<Rightarrow>
               (Inr (fold (\<lambda>row values. values(fst row \<mapsto> snd row)) rows Map.empty), st')))"

text \<open>\<^verbatim>\<open>read()[key]\<close>: indexing the dictionary raises \<^verbatim>\<open>KeyError\<close> on a missing key.\<close>

definition dict_getitem :: "('k \<rightharpoonup> 'v) \<Rightarrow> 'k \<Rightarrow> error + 'v" where
  "dict_getitem d k = (case d k of None \<Rightarrow> Inl KeyError | Some v \<Rightarrow> Inr v)"

text \<open>
  \<^verbatim>\<open>read_key\<close>: \<^verbatim>\<open>cur.fetchone()[0]\<close> raises \<^verbatim>\<open>TypeError\<close> when \<^verbatim>\<open>fetchone()\<close> is
  \<^verbatim>\<open>None\<close>, and the handler turns exactly that exception into \<^verbatim>\<open>None\<close>.
\<close>

definition first_column :: "pyval list \<Rightarrow> error + pyval" where
  "first_column rows = (case fetchone rows of None \<Rightarrow> Inl TypeError | Some v \<Rightarrow> Inr v)"

definition read_key :: "world \<Rightarrow> state \<Rightarrow> string \<Rightarrow> (error + pyval) \<times> state" where
  "read_key w st key =
     (case connect w st of
        (Inl e, st') \<Rightarrow> (Inl e, st')
      | (Inr None, st') \<Rightarrow> (Inl AttributeError, st')
      | (Inr (Some con), st') \<Rightarrow>
          (case select_value w (fst st') con key of
             Inl e \<Rightarrow> (Inl e, st')
           | Inr rows \<Rightarrow>
               (case first_column rows of
                  Inl e \<Rightarrow> (if e = TypeError then (Inr PNone, st') else (Inl e, st'))
                | Inr v \<Rightarrow> (Inr v, st'))))"

text \<open>\<^verbatim>\<open>close\<close>, \<^verbatim>\<open>is_connected\<close> and \<^verbatim>\<open>__getitem__\<close>.\<close>

fun close :: "state \<Rightarrow> state" where
  "close (h, self) =
     (case connection self of
        Some c \<Rightarrow> (Connection_close h c, self\<lparr>connection := None\<rparr>)
      | None \<Rightarrow> (h, self))"

definition is_connected :: "state \<Rightarrow> bool" where
  "is_connected st = (connection (snd st) \<noteq> None)"

definition getitem :: "world \<Rightarrow> state \<Rightarrow> string \<Rightarrow> (error + pyval) \<times> state" where
  "getitem w st key =
     (case read_key w st key of
        (Inl e, st') \<Rightarrow> (Inl e, st')
      | (Inr item, st') \<Rightarrow>
          (if truthy item then (Inr item, st') else (Inl IndexError, st')))"

subsection \<open>Predicates used to state the properties\<close>

text \<open>
  The owner of a process equals the current user, the current user being the
  value of the \<^verbatim>\<open>USER\<close> environment variable (no process has such an owner
  when the variable is unset or the owner cannot be read).
\<close>

definition owned_by_current_user :: "world \<Rightarrow> process \<Rightarrow> bool" where
  "owned_by_current_user w proc =
     (case environ w ''USER'' of
        None \<Rightarrow> False
      | Some cu \<Rightarrow> username proc = Inr cu)"

text \<open>
  The executable of a process can be read, and the predicate holds of its
  resolved path and of the basename of that path.
\<close>

definition accepts :: "world \<Rightarrow> (string \<Rightarrow> string \<Rightarrow> bool) \<Rightarrow> process \<Rightarrow> bool" where
  "accepts w process_filter proc =
     (case exe proc of
        Inl e \<Rightarrow> False
      | Inr x \<Rightarrow> process_filter (realpath w x) (basename (realpath w x)))"

subsection \<open>A concrete machine\<close>

text \<open>
  One user, \<open>alice\<close>, runs an Electron application (pid 42) that holds a Local
  Storage database open; pid 1 belongs to \<open>root\<close>, and the executable of pid 43
  cannot be read. The storage directory holds databases of one site under two
  schemes and a journal file.
\<close>

definition accept_all :: "string \<Rightarrow> string \<Rightarrow> bool" where
  "accept_all path name = True"

definition reject_all :: "string \<Rightarrow> string \<Rightarrow> bool" where
  "reject_all path name = False"

definition is_electron :: "string \<Rightarrow> string \<Rightarrow> bool" where
  "is_electron path name = (name = ''electron'')"

definition p_init :: process where
  "p_init = \<lparr>pid = 1, username = Inr ''root'', exe = Inr ''/sbin/init''\<rparr>"

definition p_browser :: process where
  "p_browser = \<lparr>pid = 42, username = Inr ''alice'', exe = Inr ''/usr/bin/app''\<rparr>"

definition p_hidden :: process where
  "p_hidden = \<lparr>pid = 43, username = Inr ''alice'', exe = Inl AccessDenied\<rparr>"

definition p_denied :: process where
  "p_denied = \<lparr>pid = 7, username = Inl AccessDenied, exe = Inl AccessDenied\<rparr>"

definition example_db :: string where
  "example_db = ''/d/Local Storage/https_example.com_0.localstorage''"

definition example_rows :: "(string \<times> pyval) list" where
  "example_rows = [(''theme'', PStr ''dark''), (''draft'', PStr [])]"

definition example_world :: world where
  "example_world =
     \<lparr>process_iter = [p_init, p_browser, p_hidden],
      environ = [''USER'' \<mapsto> ''alice''],
      realpath = (\<lambda>p. if p = ''/usr/bin/app'' then ''/opt/app/electron'' else p),
      listdir = (\<lambda>d.
        if d = ''/proc/42/fd'' then Inr [''0'', ''7'']
        else if d = ''/proc/1/fd'' then Inr [''0'']
        else if d = ''/d/Local Storage'' then
          Inr [''http_example.com_0.localstorage'',
               ''https_example.com_0.localstorage-journal'',
               ''https_example.com_0.localstorage'']
        else Inl OSError),
      readlink = (\<lambda>p.
        if p = ''/proc/42/fd/0'' then Inr ''/dev/null''
        else if p = ''/proc/42/fd/7'' then Inr example_db
        else if p = ''/proc/1/fd/0'' then Inr ''/dev/null''
        else Inl OSError),
      sqlite_open = (\<lambda>p. None),
      item_table = (\<lambda>p. if p = example_db then Inr example_rows else Inl OperationalError)\<rparr>"

text \<open>The same machine with no directory that can be listed.\<close>

definition offline_world :: world where
  "offline_world = example_world\<lparr>listdir := (\<lambda>d. Inl OSError)\<rparr>"

text \<open>The same machine with no database file that sqlite3 can open.\<close>

definition locked_world :: world where
  "locked_world = example_world\<lparr>sqlite_open := (\<lambda>p. Some OperationalError)\<rparr>"

text \<open>The same machine with \<^verbatim>\<open>USER\<close> unset.\<close>

definition user_unset_world :: world where
  "user_unset_world = example_world\<lparr>environ := Map.empty\<rparr>"

text \<open>
  A machine whose first process does not let an unprivileged caller read its
  owner, followed by the application of the current user.
\<close>

definition owner_denied_world :: world where
  "owner_denied_world = example_world\<lparr>process_iter := [p_denied, p_browser]\<rparr>"

text \<open>
  Accessors: for the site that has a database, and for one that has none; the
  store before any connection is made, and the store and accessor once connected.
\<close>

definition example_accessor :: LocalStorage where
  "example_accessor = LocalStorage_init ''example.com'' ''/d/Local Storage'' ''https''"

definition missing_accessor :: LocalStorage where
  "missing_accessor = LocalStorage_init ''nosuch.org'' ''/d/Local Storage'' ''https''"

definition empty_heap :: heap where
  "empty_heap = \<lparr>objs = (\<lambda>r. \<lparr>db_path = [], is_closed = True\<rparr>), next_ref = 0\<rparr>"

definition connected_heap :: heap where
  "connected_heap =
     \<lparr>objs = (\<lambda>r. \<lparr>db_path = example_db, is_closed = False\<rparr>), next_ref = 1\<rparr>"

definition connected_accessor :: LocalStorage where
  "connected_accessor = example_accessor\<lparr>connection := Some 0\<rparr>"

section \<open>What the library functions compute\<close>

lemma startswith_iff: "startswith s p \<longleftrightarrow> (\<exists>r. s = p @ r)"
  by (induction s p rule: startswith.induct) auto

lemma endswith_iff: "endswith s p \<longleftrightarrow> (\<exists>r. s = r @ p)"
proof -
  have "endswith s p \<longleftrightarrow> (\<exists>r. rev s = rev p @ r)"
    by (simp add: endswith_def startswith_iff)
  also have "\<dots> \<longleftrightarrow> (\<exists>r. s = r @ p)"
  proof
    assume "\<exists>r. rev s = rev p @ r"
    then obtain r where "rev s = rev p @ r" ..
    then have "rev (rev s) = rev (rev p @ r)" by simp
    then have "s = rev r @ p" by simp
    then show "\<exists>r. s = r @ p" ..
  next
    assume "\<exists>r. s = r @ p"
    then obtain r where "s = r @ p" ..
    then have "rev s = rev p @ rev r" by simp
    then show "\<exists>r. rev s = rev p @ r" ..
  qed
  finally show ?thesis .
qed

lemma str_contains_iff: "str_contains sub s \<longleftrightarrow> (\<exists>a b. s = a @ sub @ b)"
proof (induction s)
  case Nil
  then show ?case by auto
next
  case (Cons c cs)
  show ?case
  proof
    assume "str_contains sub (c # cs)"
    then consider "startswith (c # cs) sub" | "str_contains sub cs" by auto
    then show "\<exists>a b. c # cs = a @ sub @ b"
    proof cases
      case 1
      then obtain r where "c # cs = sub @ r" by (auto simp: startswith_iff)
      then have "c # cs = [] @ sub @ r" by simp
      then show ?thesis by blast
    next
      case 2
      then obtain a b where "cs = a @ sub @ b" using Cons.IH by auto
      then have "c # cs = (c # a) @ sub @ b" by simp
      then show ?thesis by blast
    qed
  next
    assume "\<exists>a b. c # cs = a @ sub @ b"
    then obtain a b where ab: "c # cs = a @ sub @ b" by blast
    show "str_contains sub (c # cs)"
    proof (cases a)
      case Nil
      with ab have "startswith (c # cs) sub" by (auto simp: startswith_iff)
      then show ?thesis by simp
    next
      case (Cons x a')
      with ab have "cs = a' @ sub @ b" by simp
      then have "str_contains sub cs" using Cons.IH by blast
      then show ?thesis by simp
    qed
  qed
qed

lemma name_matches_iff:
  "name_matches self f \<longleftrightarrow>
     (\<exists>r. f = proto self @ ''_'' @ site self @ ''_'' @ r) \<and> (\<exists>r. f = r @ ''.localstorage'')"
  by (simp add: name_matches_def startswith_iff endswith_iff)

lemma dirname_example: "dirname example_db = ''/d/Local Storage''"
  by (simp add: dirname_def rstrip_sep_def example_db_def)

lemma dirname_root: "dirname ''/etc'' = ''/'' \<and> dirname ''passwd'' = [] \<and> dirname ''/a//b'' = ''/a''"
  by (simp add: dirname_def rstrip_sep_def)

lemma basename_example: "basename ''/opt/app/electron'' = ''electron''"
  by (simp add: basename_def)

lemma str_nat_example: "str_nat 42 = ''42'' \<and> str_nat 0 = ''0'' \<and> str_nat 1305 = ''1305''"
  by (simp add: str_nat.simps)

section \<open>Process locator\<close>

subsection \<open>The loop of \<open>search_processes\<close>\<close>

lemma owner_test_True:
  "owner_test w False proc = Inr True \<longleftrightarrow> owned_by_current_user w proc"
  by (auto simp: owner_test_def owned_by_current_user_def split: sum.splits option.splits)

lemma owner_test_False:
  "owner_test w False proc = Inr False \<Longrightarrow> \<not> owned_by_current_user w proc"
  by (auto simp: owner_test_def owned_by_current_user_def split: sum.splits option.splits)

lemma search_loop_sound:
  "p \<in> set (fst (search_loop w pf False procs)) \<Longrightarrow>
     p \<in> set procs \<and> owned_by_current_user w p \<and> accepts w pf p"
proof (induction procs)
  case Nil
  then show ?case by simp
next
  case (Cons q qs)
  show ?case
  proof (cases "owner_test w False q")
    case (Inl e)
    with Cons.prems show ?thesis by simp
  next
    case (Inr b)
    show ?thesis
    proof (cases b)
      case False
      with Inr Cons show ?thesis by simp
    next
      case True
      with Inr have own: "owned_by_current_user w q" by (simp add: owner_test_True)
      show ?thesis
      proof (cases "exe q")
        case (Inl e)
        with Inr True Cons show ?thesis by (simp split: if_splits)
      next
        case (Inr x)
        show ?thesis
        proof (cases "pf (realpath w x) (basename (realpath w x))")
          case False
          with Inr \<open>owner_test w False q = Inr b\<close> True Cons show ?thesis by simp
        next
          case yes: True
          then have "accepts w pf q" using Inr by (simp add: accepts_def)
          with Inr \<open>owner_test w False q = Inr b\<close> True Cons yes own show ?thesis
            by (auto simp: yield_def)
        qed
      qed
    qed
  qed
qed

lemma search_loop_complete:
  "snd (search_loop w pf False procs) = None \<Longrightarrow>
     fst (search_loop w pf False procs) =
       filter (\<lambda>p. owned_by_current_user w p \<and> accepts w pf p) procs"
proof (induction procs)
  case Nil
  then show ?case by simp
next
  case (Cons q qs)
  show ?case
  proof (cases "owner_test w False q")
    case (Inl e)
    with Cons.prems show ?thesis by simp
  next
    case (Inr b)
    show ?thesis
    proof (cases b)
      case False
      with Inr have "\<not> owned_by_current_user w q" by (simp add: owner_test_False)
      with Inr False Cons show ?thesis by simp
    next
      case True
      with Inr have own: "owned_by_current_user w q" by (simp add: owner_test_True)
      show ?thesis
      proof (cases "exe q")
        case (Inl e)
        then have "\<not> accepts w pf q" by (simp add: accepts_def)
        with Inl Inr True Cons show ?thesis by (simp split: if_splits)
      next
        case (Inr x)
        with \<open>owner_test w False q = Inr b\<close> True Cons own show ?thesis
          by (simp add: accepts_def yield_def Let_def split: if_splits)
      qed
    qed
  qed
qed

lemma search_loop_reject:
  "(\<And>e b. \<not> pf e b) \<Longrightarrow> fst (search_loop w pf any_user procs) = []"
  by (induction procs) (auto split: sum.splits bool.splits)

text \<open>
  A process whose executable cannot be read for lack of permission is passed
  over, whatever follows it; this is the \<^verbatim>\<open>except psutil.AccessDenied\<close> branch.
\<close>

lemma search_loop_skips_exe_denied:
  "owner_test w any_user proc = Inr True \<Longrightarrow> exe proc = Inl AccessDenied \<Longrightarrow>
     search_loop w pf any_user (proc # procs) = search_loop w pf any_user procs"
  by simp

text \<open>With \<^verbatim>\<open>USER\<close> unset, the loop ends at the first process.\<close>

lemma search_loop_user_unset:
  "environ w ''USER'' = None \<Longrightarrow>
     search_loop w pf False procs =
       (case procs of
          [] \<Rightarrow> ([], None)
        | p # ps \<Rightarrow> (case username p of Inl e \<Rightarrow> ([], Some e) | Inr u \<Rightarrow> ([], Some KeyError)))"
  by (cases procs) (auto simp: owner_test_def split: sum.splits)

lemma find_loop_prefix:
  "find_loop (map Inr paths @ rest) =
     (case find (str_contains ''Local Storage'') paths of
        Some f \<Rightarrow> Inr (Some (dirname f))
      | None \<Rightarrow> find_loop rest)"
  by (induction paths) auto

lemma example_search:
  "search_processes example_world is_electron False = ([p_browser], None)"
  by (simp add: search_processes_def example_world_def owner_test_def yield_def
        p_init_def p_browser_def p_hidden_def is_electron_def basename_def)

lemma example_open_files:
  "list_open_files example_world p_browser = Inr (map Inr [''/dev/null'', example_db] @ [])"
  "list_open_files example_world p_init = Inr (map Inr [''/dev/null''] @ [])"
  by (simp_all add: list_open_files_def example_world_def p_browser_def p_init_def
        str_nat.simps path_join_def endswith_def)

subsection \<open>Claims about the process locator\<close>

text \<open>
  C5. Called with \<open>any_user = False\<close>, \<open>search_processes\<close> yields only processes
  of the process list whose owner equals the current user and whose resolved
  executable path and basename satisfy the predicate, so never a process of
  another user; when no exception ends the enumeration it yields exactly those,
  in the order of the process list; and a predicate that rejects every
  executable makes it yield nothing.
\<close>

theorem search_processes_current_user:
  "(\<forall>p \<in> set (fst (search_processes w pf False)).
       p \<in> set (process_iter w) \<and> owned_by_current_user w p \<and> accepts w pf p) \<and>
   (snd (search_processes w pf False) = None \<longrightarrow>
       fst (search_processes w pf False) =
         filter (\<lambda>p. owned_by_current_user w p \<and> accepts w pf p) (process_iter w)) \<and>
   ((\<forall>e b. \<not> pf e b) \<longrightarrow> fst (search_processes w pf False) = [])"
  unfolding search_processes_def
  using search_loop_sound [of _ w pf "process_iter w"]
        search_loop_complete [of w pf "process_iter w"]
        search_loop_reject [of pf w False "process_iter w"]
  by blast

theorem search_processes_current_user_witness:
  "snd (search_processes example_world is_electron False) = None \<and>
   fst (search_processes example_world is_electron False) = [p_browser] \<and>
   filter (\<lambda>p. owned_by_current_user example_world p \<and> accepts example_world is_electron p)
     (process_iter example_world) = [p_browser] \<and>
   owned_by_current_user example_world p_browser \<and>
   accepts example_world is_electron p_browser \<and>
   fst (search_processes example_world reject_all False) = []"
proof -
  have run: "snd (search_processes example_world is_electron False) = None"
    and out: "fst (search_processes example_world is_electron False) = [p_browser]"
    by (simp_all add: example_search)
  have rej: "\<forall>e b. \<not> reject_all e b"
    by (simp add: reject_all_def)
  from out have mem: "p_browser \<in> set (fst (search_processes example_world is_electron False))"
    by simp
  from search_processes_current_user [of example_world is_electron] run out mem
  have "filter (\<lambda>p. owned_by_current_user example_world p \<and> accepts example_world is_electron p)
          (process_iter example_world) = [p_browser]"
    and "owned_by_current_user example_world p_browser"
    and "accepts example_world is_electron p_browser"
    by auto
  moreover from search_processes_current_user [of example_world reject_all] rej
  have "fst (search_processes example_world reject_all False) = []"
    by blast
  ultimately show ?thesis using run out by simp
qed

text \<open>
  C6. A process whose owner cannot be read for lack of permission is not
  passed over the way one whose executable cannot be read is
  (\<open>search_loop_skips_exe_denied\<close>): \<^verbatim>\<open>proc.username()\<close> is called in the
  condition of the \<^verbatim>\<open>if\<close>, outside the \<^verbatim>\<open>try\<close>. On the machine whose first
  process denies its owner, the enumeration ends with \<^verbatim>\<open>AccessDenied\<close> and the
  application of the current user, which follows, is never yielded.
\<close>

theorem search_processes_owner_denied:
  "search_processes owner_denied_world accept_all False = ([], Some AccessDenied)"
  by (simp add: search_processes_def owner_denied_world_def example_world_def
        owner_test_def p_denied_def)

text \<open>
  C7. \<open>find_local_storage\<close> goes through the path names of the open files in
  order. When the path names read so far are \<open>paths\<close> and \<open>f\<close> is the first of
  them that contains \<^verbatim>\<open>Local Storage\<close>, the result is the directory part of
  \<open>f\<close>; when \<open>paths\<close> are all the open files and none contains it, the result
  is \<^verbatim>\<open>None\<close>.
\<close>

theorem find_local_storage_first_match:
  assumes "list_open_files w proc = Inr (map Inr paths @ rest)"
  shows "(find (str_contains ''Local Storage'') paths = Some f \<longrightarrow>
            find_local_storage w proc = Inr (Some (dirname f))) \<and>
         (find (str_contains ''Local Storage'') paths = None \<and> rest = [] \<longrightarrow>
            find_local_storage w proc = Inr None)"
proof -
  have "find_local_storage w proc = find_loop (map Inr paths @ rest)"
    using assms by (simp add: find_local_storage_def)
  then show ?thesis
    by (simp add: find_loop_prefix)
qed

theorem find_local_storage_first_match_witness:
  "list_open_files example_world p_browser = Inr (map Inr [''/dev/null'', example_db] @ []) \<and>
   find (str_contains ''Local Storage'') [''/dev/null'', example_db] = Some example_db \<and>
   find_local_storage example_world p_browser = Inr (Some ''/d/Local Storage'') \<and>
   list_open_files example_world p_init = Inr (map Inr [''/dev/null''] @ []) \<and>
   find (str_contains ''Local Storage'') [''/dev/null''] = None \<and>
   find_local_storage example_world p_init = Inr None"
proof -
  have f1: "find (str_contains ''Local Storage'') [''/dev/null'', example_db] = Some example_db"
    by (simp add: example_db_def)
  have f2: "find (str_contains ''Local Storage'') [''/dev/null''] = None"
    by simp
  from find_local_storage_first_match [OF example_open_files(1), of example_db] f1
  have "find_local_storage example_world p_browser = Inr (Some (dirname example_db))"
    by blast
  moreover
  from find_local_storage_first_match [OF example_open_files(2)] f2
  have "find_local_storage example_world p_init = Inr None"
    by blast
  ultimately show ?thesis
    using f1 f2 example_open_files by (simp add: dirname_example)
qed

text \<open>
  C10. The current user is the value of the \<^verbatim>\<open>USER\<close> environment variable:
  when it is set, every process yielded with \<open>any_user = False\<close> has that value
  as its owner name. When it is unset, such a call yields no process, whatever
  the predicate, and raises \<^verbatim>\<open>KeyError\<close> at the first process of the list (its
  owner name having been read).
\<close>

theorem search_processes_user_unset:
  "(\<forall>cu. environ w ''USER'' = Some cu \<longrightarrow>
      (\<forall>p \<in> set (fst (search_processes w pf False)). username p = Inr cu)) \<and>
   (environ w ''USER'' = None \<longrightarrow>
      fst (search_processes w pf False) = [] \<and>
      (\<forall>p ps u. process_iter w = p # ps \<and> username p = Inr u \<longrightarrow>
         search_processes w pf False = ([], Some KeyError)))"
proof (intro conjI allI impI ballI)
  fix cu p
  assume "environ w ''USER'' = Some cu"
    and "p \<in> set (fst (search_processes w pf False))"
  then show "username p = Inr cu"
    using search_loop_sound [of p w pf "process_iter w"]
    by (simp add: search_processes_def owned_by_current_user_def)
next
  assume "environ w ''USER'' = None"
  then have "search_loop w pf False (process_iter w) =
       (case process_iter w of
          [] \<Rightarrow> ([], None)
        | p # ps \<Rightarrow> (case username p of Inl e \<Rightarrow> ([], Some e) | Inr u \<Rightarrow> ([], Some KeyError)))"
    by (rule search_loop_user_unset)
  then show "fst (search_processes w pf False) = []"
    by (simp add: search_processes_def split: list.splits sum.splits)
next
  fix p ps u
  assume "environ w ''USER'' = None" and "process_iter w = p # ps \<and> username p = Inr u"
  then show "search_processes w pf False = ([], Some KeyError)"
    by (simp add: search_processes_def owner_test_def)
qed

theorem search_processes_user_unset_witness:
  "environ example_world ''USER'' = Some ''alice'' \<and>
   fst (search_processes example_world is_electron False) = [p_browser] \<and>
   username p_browser = Inr ''alice'' \<and>
   environ user_unset_world ''USER'' = None \<and>
   process_iter user_unset_world = p_init # [p_browser, p_hidden] \<and>
   username p_init = Inr ''root'' \<and>
   search_processes user_unset_world accept_all False = ([], Some KeyError)"
proof -
  have e1: "environ example_world ''USER'' = Some ''alice''"
    by (simp add: example_world_def)
  have out: "fst (search_processes example_world is_electron False) = [p_browser]"
    by (simp add: example_search)
  have e2: "environ user_unset_world ''USER'' = None"
    and l2: "process_iter user_unset_world = p_init # [p_browser, p_hidden]"
    and u2: "username p_init = Inr ''root''"
    by (simp_all add: user_unset_world_def example_world_def p_init_def)
  from search_processes_user_unset [of example_world is_electron] e1 out
  have a: "username p_browser = Inr ''alice''"
    by simp
  from search_processes_user_unset [of user_unset_world accept_all] e2 l2 u2
  have b: "search_processes user_unset_world accept_all False = ([], Some KeyError)"
    by blast
  from e1 out a e2 l2 u2 b show ?thesis by simp
qed

section \<open>Local Storage accessor\<close>

subsection \<open>Connecting\<close>

text \<open>The loop of \<open>connect\<close> stops at the first directory entry of a matching name.\<close>

lemma connect_loop_find:
  "connect_loop w (h, self) fs =
     (case find (name_matches self) fs of
        None \<Rightarrow> (Inr None, (h, self))
      | Some f \<Rightarrow>
          (case sqlite3_connect w h (path_join (storage self) f) of
             Inl e \<Rightarrow> (Inl e, (h, self))
           | Inr (c, h') \<Rightarrow> (Inr (Some c), (h', self\<lparr>connection := Some c\<rparr>))))"
  by (induction fs) auto

text \<open>
  Whatever \<open>connect\<close> returns, it either leaves the store and the accessor as
  they were, or it has made a connection and holds it.
\<close>

lemma connect_cases:
  "connect w (h, self) = (r, st') \<Longrightarrow>
     (st' = (h, self) \<and> (r = Inr None \<or> (\<exists>e. r = Inl e) \<or> r = Inr (connection self))) \<or>
     (\<exists>c h'. r = Inr (Some c) \<and> st' = (h', self\<lparr>connection := Some c\<rparr>))"
  by (auto simp: connect_loop_find split: option.splits sum.splits prod.splits)

lemma connect_None_state:
  assumes "fst (connect w st) = Inr None"
  shows "snd (connect w st) = st"
proof -
  obtain h self where st: "st = (h, self)" by (cases st)
  obtain r st' where c: "connect w (h, self) = (r, st')" by (cases "connect w (h, self)")
  from assms st c have "r = Inr None" by simp
  with connect_cases [OF c] have "st' = (h, self)" by auto
  with st c show ?thesis by simp
qed

lemma example_listing:
  "listdir example_world (storage example_accessor) =
     Inr [''http_example.com_0.localstorage'',
          ''https_example.com_0.localstorage-journal'',
          ''https_example.com_0.localstorage'']"
  "listdir example_world (storage missing_accessor) =
     Inr [''http_example.com_0.localstorage'',
          ''https_example.com_0.localstorage-journal'',
          ''https_example.com_0.localstorage'']"
  by (simp_all add: example_world_def example_accessor_def missing_accessor_def
        LocalStorage_init_def)

lemma example_first_match:
  "find (name_matches example_accessor)
     [''http_example.com_0.localstorage'',
      ''https_example.com_0.localstorage-journal'',
      ''https_example.com_0.localstorage''] = Some ''https_example.com_0.localstorage''"
  "find (name_matches missing_accessor)
     [''http_example.com_0.localstorage'',
      ''https_example.com_0.localstorage-journal'',
      ''https_example.com_0.localstorage''] = None"
  by (simp_all add: name_matches_def endswith_def example_accessor_def missing_accessor_def
        LocalStorage_init_def)

lemma example_path:
  "path_join (storage example_accessor) ''https_example.com_0.localstorage'' = example_db"
  by (simp add: path_join_def endswith_def example_accessor_def LocalStorage_init_def
        example_db_def)

lemma example_unconnected:
  "connection example_accessor = None" "connection missing_accessor = None"
  by (simp_all add: example_accessor_def missing_accessor_def LocalStorage_init_def)

text \<open>
  C1. On an accessor that holds no connection, \<open>connect\<close> lists the storage
  directory. If no entry has a name that starts with the scheme, an underscore,
  the site and an underscore and ends with \<^verbatim>\<open>.localstorage\<close>, it returns
  \<^verbatim>\<open>None\<close> without raising and changes nothing. Otherwise, for the first such
  entry \<open>f\<close>, it opens a new connection on the path of \<open>f\<close> in the directory,
  stores it in the accessor and returns it.
\<close>

theorem connect_resolves_first_match:
  assumes "connection self = None" and "listdir w (storage self) = Inr fs"
  shows "(find (name_matches self) fs = None \<longrightarrow>
            connect w (h, self) = (Inr None, (h, self))) \<and>
         (\<forall>f. find (name_matches self) fs = Some f \<and>
              sqlite_open w (path_join (storage self) f) = None \<longrightarrow>
            (\<exists>c h'. connect w (h, self) = (Inr (Some c), (h', self\<lparr>connection := Some c\<rparr>)) \<and>
                    c = next_ref h \<and>
                    objs h' c = \<lparr>db_path = path_join (storage self) f, is_closed = False\<rparr> \<and>
                    (\<forall>r. r \<noteq> c \<longrightarrow> objs h' r = objs h r)))"
  using assms by (simp add: connect_loop_find sqlite3_connect_def)

theorem connect_resolves_first_match_witness:
  "connection missing_accessor = None \<and>
   find (name_matches missing_accessor)
     [''http_example.com_0.localstorage'',
      ''https_example.com_0.localstorage-journal'',
      ''https_example.com_0.localstorage''] = None \<and>
   connect example_world (empty_heap, missing_accessor) = (Inr None, (empty_heap, missing_accessor)) \<and>
   connection example_accessor = None \<and>
   find (name_matches example_accessor)
     [''http_example.com_0.localstorage'',
      ''https_example.com_0.localstorage-journal'',
      ''https_example.com_0.localstorage''] = Some ''https_example.com_0.localstorage'' \<and>
   sqlite_open example_world example_db = None \<and>
   fst (connect example_world (empty_heap, example_accessor)) = Inr (Some 0) \<and>
   connection (snd (snd (connect example_world (empty_heap, example_accessor)))) = Some 0 \<and>
   objs (fst (snd (connect example_world (empty_heap, example_accessor)))) 0 =
     \<lparr>db_path = example_db, is_closed = False\<rparr>"
proof -
  have op: "sqlite_open example_world example_db = None"
    by (simp add: example_world_def)
  from connect_resolves_first_match
         [OF example_unconnected(2) example_listing(2), of empty_heap] example_first_match(2)
  have none: "connect example_world (empty_heap, missing_accessor) =
                (Inr None, (empty_heap, missing_accessor))"
    by blast
  from connect_resolves_first_match
         [OF example_unconnected(1) example_listing(1), of empty_heap]
       example_first_match(1) op example_path
  obtain c h' where
    "connect example_world (empty_heap, example_accessor) =
       (Inr (Some c), (h', example_accessor\<lparr>connection := Some c\<rparr>))"
    "c = next_ref empty_heap"
    "objs h' c = \<lparr>db_path = example_db, is_closed = False\<rparr>"
    by (metis (no_types, lifting))
  then have some:
    "fst (connect example_world (empty_heap, example_accessor)) = Inr (Some 0)"
    "connection (snd (snd (connect example_world (empty_heap, example_accessor)))) = Some 0"
    "objs (fst (snd (connect example_world (empty_heap, example_accessor)))) 0 =
       \<lparr>db_path = example_db, is_closed = False\<rparr>"
    by (simp_all add: empty_heap_def)
  from none some op example_unconnected example_first_match show ?thesis
    by simp
qed

text \<open>
  C4. \<open>connect\<close> is idempotent: a second call right after the first returns what
  the first returned and leaves the store and the accessor as the first left
  them. When the first call returned a connection, the second returns that same
  reference whatever the directory or the files have become: nothing is listed
  and nothing is opened.
\<close>

theorem connect_idempotent:
  "connect w (snd (connect w st)) = connect w st \<and>
   (\<forall>c. fst (connect w st) = Inr (Some c) \<longrightarrow>
      (\<forall>w'. connect w' (snd (connect w st)) = (Inr (Some c), snd (connect w st))))"
proof -
  obtain h self where st: "st = (h, self)" by (cases st)
  obtain r st' where c: "connect w (h, self) = (r, st')" by (cases "connect w (h, self)")
  from connect_cases [OF c]
  consider "st' = (h, self)"
    | c' h' where "r = Inr (Some c')" "st' = (h', self\<lparr>connection := Some c'\<rparr>)"
    by blast
  then have 1: "connect w st' = (r, st')"
  proof cases
    case 1
    with c show ?thesis by simp
  next
    case 2
    then show ?thesis by simp
  qed
  have 2: "connect w' st' = (Inr (Some c'), st')" if "r = Inr (Some c')" for c' w'
  proof -
    from connect_cases [OF c] that
    consider "st' = (h, self)" "connection self = Some c'"
      | h' where "st' = (h', self\<lparr>connection := Some c'\<rparr>)"
      by auto
    then show ?thesis by cases simp_all
  qed
  from 1 2 st c show ?thesis by simp
qed

lemma example_connect:
  "fst (connect example_world (empty_heap, example_accessor)) = Inr (Some 0)"
  using example_listing(1) example_first_match(1) example_path example_unconnected(1)
  by (simp add: connect_loop_find sqlite3_connect_def example_world_def empty_heap_def)

theorem connect_idempotent_witness:
  "fst (connect example_world (empty_heap, example_accessor)) = Inr (Some 0) \<and>
   connect example_world (snd (connect example_world (empty_heap, example_accessor))) =
     connect example_world (empty_heap, example_accessor) \<and>
   connect offline_world (snd (connect example_world (empty_heap, example_accessor))) =
     (Inr (Some 0), snd (connect example_world (empty_heap, example_accessor)))"
  using connect_idempotent [of example_world "(empty_heap, example_accessor)"] example_connect
  by blast

subsection \<open>Reading\<close>

text \<open>
  C2. When \<open>connect\<close> returns \<^verbatim>\<open>None\<close>, as it does on an accessor without a
  connection whose storage directory has no entry of a matching name, \<open>read\<close>
  raises: the \<^verbatim>\<open>AttributeError\<close> of calling \<^verbatim>\<open>execute\<close> on \<^verbatim>\<open>None\<close> reaches
  the caller, and the store and the accessor are left as they were.
\<close>

theorem read_without_file:
  "(fst (connect w st) = Inr None \<longrightarrow> read w st = (Inl AttributeError, st)) \<and>
   (connection self = None \<and> listdir w (storage self) = Inr fs \<and>
      find (name_matches self) fs = None \<longrightarrow>
        connect w (h, self) = (Inr None, (h, self)) \<and>
        read w (h, self) = (Inl AttributeError, (h, self)))"
proof -
  have a: "read w st = (Inl AttributeError, st)" if "fst (connect w st) = Inr None"
  proof -
    from that connect_None_state [OF that] have "connect w st = (Inr None, st)"
      by (cases "connect w st") simp
    then show ?thesis by (simp add: read_def)
  qed
  have b: "connect w (h, self) = (Inr None, (h, self))"
    if "connection self = None" "listdir w (storage self) = Inr fs"
       "find (name_matches self) fs = None"
    using that by (simp add: connect_loop_find)
  from a b show ?thesis by (simp add: read_def)
qed

theorem read_without_file_witness:
  "connection missing_accessor = None \<and>
   find (name_matches missing_accessor)
     [''http_example.com_0.localstorage'',
      ''https_example.com_0.localstorage-journal'',
      ''https_example.com_0.localstorage''] = None \<and>
   fst (connect example_world (empty_heap, missing_accessor)) = Inr None \<and>
   read example_world (empty_heap, missing_accessor) =
     (Inl AttributeError, (empty_heap, missing_accessor))"
proof -
  from read_without_file
         [of example_world "(empty_heap, missing_accessor)" missing_accessor _ empty_heap]
       example_unconnected(2) example_listing(2) example_first_match(2)
  have c: "connect example_world (empty_heap, missing_accessor) =
             (Inr None, (empty_heap, missing_accessor))"
    by blast
  then have d: "fst (connect example_world (empty_heap, missing_accessor)) = Inr None"
    by simp
  with read_without_file [of example_world "(empty_heap, missing_accessor)"]
  have "read example_world (empty_heap, missing_accessor) =
          (Inl AttributeError, (empty_heap, missing_accessor))"
    by blast
  with d example_unconnected(2) example_first_match(2) show ?thesis
    by simp
qed

text \<open>The dictionary \<open>read\<close> builds: a later row of a key overwrites an earlier one.\<close>

lemma fold_rows_map_of:
  "fold (\<lambda>row values. values(fst row \<mapsto> snd row)) rows m = m ++ map_of (rev rows)"
proof (induction rows arbitrary: m)
  case Nil
  then show ?case by simp
next
  case (Cons r rs)
  let ?f = "\<lambda>row values. values(fst row \<mapsto> snd row)"
  have "fold ?f (r # rs) m = fold ?f rs (m(fst r \<mapsto> snd r))"
    by (simp only: fold_simps)
  also have "\<dots> = m(fst r \<mapsto> snd r) ++ map_of (rev rs)"
    by (rule Cons.IH)
  also have "m(fst r \<mapsto> snd r) = m ++ map_of [r]"
    by (cases r) simp
  also have "m ++ map_of [r] ++ map_of (rev rs) = m ++ map_of (rev (r # rs))"
    by (simp only: rev.simps map_of_append map_add_assoc)
  finally show ?case .
qed

lemma read_dict_lookup:
  assumes "distinct (map fst rows)" and "(key, v) \<in> set rows"
  shows "fold (\<lambda>row values. values(fst row \<mapsto> snd row)) rows Map.empty key = Some v"
proof -
  from assms have "distinct (map fst (rev rows))" and "(key, v) \<in> set (rev rows)"
    by (simp_all add: rev_map [symmetric])
  then have "map_of (rev rows) key = Some v"
    by (rule map_of_is_SomeI)
  then show ?thesis
    by (simp only: fold_rows_map_of empty_map_add)
qed

text \<open>The point query hands \<open>fetchone\<close> the first row of the key, if there is one.\<close>

lemma fetchone_filter:
  "fetchone (map snd (filter (\<lambda>row. fst row = key) rows)) = map_of rows key"
  by (induction rows) (auto simp: fetchone_def)

lemma first_column_lookup:
  "first_column (map snd (filter (\<lambda>row. fst row = key) rows)) =
     (case map_of rows key of None \<Rightarrow> Inl TypeError | Some v \<Rightarrow> Inr v)"
  by (simp add: first_column_def fetchone_filter)

lemma read_key_connected:
  assumes "connection self = Some c" and "\<not> is_closed (objs h c)"
    and "item_table w (db_path (objs h c)) = Inr rows"
  shows "read_key w (h, self) key =
           (Inr (case map_of rows key of None \<Rightarrow> PNone | Some v \<Rightarrow> v), (h, self))"
  using assms
  by (simp add: read_key_def select_value_def select_all_def first_column_lookup
           split: option.splits)

lemma read_connected:
  assumes "connection self = Some c" and "\<not> is_closed (objs h c)"
    and "item_table w (db_path (objs h c)) = Inr rows"
  shows "read w (h, self) =
           (Inr (fold (\<lambda>row values. values(fst row \<mapsto> snd row)) rows Map.empty), (h, self))"
  using assms by (simp add: read_def select_all_def)

lemma example_connected:
  "connection connected_accessor = Some 0"
  "\<not> is_closed (objs connected_heap 0)"
  "item_table example_world (db_path (objs connected_heap 0)) = Inr example_rows"
  by (simp_all add: connected_accessor_def connected_heap_def example_world_def)

lemma example_rows_distinct: "distinct (map fst example_rows)"
  by (simp add: example_rows_def)

text \<open>
  C3. On an accessor that holds an open connection to a database whose
  \<^verbatim>\<open>ItemTable\<close> can be read: for a key that is in the table (keys being unique
  in it) with value \<open>v\<close>, \<open>read\<close> returns a dictionary that has \<open>v\<close> at the
  key, and \<open>read_key\<close> returns \<open>v\<close>; for a key that is not in the table,
  \<open>read_key\<close> returns \<^verbatim>\<open>None\<close> without raising, while indexed access raises
  \<^verbatim>\<open>IndexError\<close>.
\<close>

theorem lookup_asymmetry:
  assumes "connection self = Some c" and "\<not> is_closed (objs h c)"
    and "item_table w (db_path (objs h c)) = Inr rows"
  shows "(\<forall>v. distinct (map fst rows) \<and> (key, v) \<in> set rows \<longrightarrow>
            (\<exists>d. read w (h, self) = (Inr d, (h, self)) \<and> dict_getitem d key = Inr v) \<and>
            read_key w (h, self) key = (Inr v, (h, self))) \<and>
         (key \<notin> fst ` set rows \<longrightarrow>
            read_key w (h, self) key = (Inr PNone, (h, self)) \<and>
            getitem w (h, self) key = (Inl IndexError, (h, self)))"
proof (intro conjI allI impI)
  fix v
  assume a: "distinct (map fst rows) \<and> (key, v) \<in> set rows"
  then show "\<exists>d. read w (h, self) = (Inr d, (h, self)) \<and> dict_getitem d key = Inr v"
    using read_dict_lookup [of rows key v]
    by (simp add: read_connected [OF assms] dict_getitem_def)
  from a have "map_of rows key = Some v" by simp
  then show "read_key w (h, self) key = (Inr v, (h, self))"
    by (simp add: read_key_connected [OF assms])
next
  assume "key \<notin> fst ` set rows"
  then have n: "map_of rows key = None" by (simp add: map_of_eq_None_iff)
  then show "read_key w (h, self) key = (Inr PNone, (h, self))"
    by (simp add: read_key_connected [OF assms])
  then show "getitem w (h, self) key = (Inl IndexError, (h, self))"
    by (simp add: getitem_def)
qed

theorem lookup_asymmetry_witness:
  "connection connected_accessor = Some 0 \<and>
   \<not> is_closed (objs connected_heap 0) \<and>
   item_table example_world (db_path (objs connected_heap 0)) = Inr example_rows \<and>
   distinct (map fst example_rows) \<and>
   (''theme'', PStr ''dark'') \<in> set example_rows \<and>
   read_key example_world (connected_heap, connected_accessor) ''theme'' =
     (Inr (PStr ''dark''), (connected_heap, connected_accessor)) \<and>
   ''missing'' \<notin> fst ` set example_rows \<and>
   read_key example_world (connected_heap, connected_accessor) ''missing'' =
     (Inr PNone, (connected_heap, connected_accessor)) \<and>
   getitem example_world (connected_heap, connected_accessor) ''missing'' =
     (Inl IndexError, (connected_heap, connected_accessor))"
proof -
  have m: "(''theme'', PStr ''dark'') \<in> set example_rows"
    and n: "''missing'' \<notin> fst ` set example_rows"
    by (simp_all add: example_rows_def)
  from lookup_asymmetry [OF example_connected, of "''theme''"] example_rows_distinct m
  have "read_key example_world (connected_heap, connected_accessor) ''theme'' =
          (Inr (PStr ''dark''), (connected_heap, connected_accessor))"
    by blast
  moreover
  from lookup_asymmetry [OF example_connected, of "''missing''"] n
  have "read_key example_world (connected_heap, connected_accessor) ''missing'' =
          (Inr PNone, (connected_heap, connected_accessor))"
    and "getitem example_world (connected_heap, connected_accessor) ''missing'' =
          (Inl IndexError, (connected_heap, connected_accessor))"
    by blast+
  ultimately show ?thesis
    using example_connected example_rows_distinct m n by simp
qed

text \<open>
  C9. Indexed access tests the truth value of what \<open>read_key\<close> returns, not
  whether a row was found. On an accessor that holds an open connection, for a
  key that is in the table (keys being unique in it) with a value that is false
  in a condition, such as the empty string or empty bytes, \<open>read_key\<close> returns
  the value and indexed access raises \<^verbatim>\<open>IndexError\<close>, as it does for a missing
  key; with a value that is true, indexed access returns it.
\<close>

theorem getitem_falsy_value:
  assumes "connection self = Some c" and "\<not> is_closed (objs h c)"
    and "item_table w (db_path (objs h c)) = Inr rows"
    and "distinct (map fst rows)" and "(key, v) \<in> set rows"
  shows "(\<not> truthy v \<longrightarrow>
            read_key w (h, self) key = (Inr v, (h, self)) \<and>
            getitem w (h, self) key = (Inl IndexError, (h, self))) \<and>
         (truthy v \<longrightarrow> getitem w (h, self) key = (Inr v, (h, self)))"
proof -
  from assms(4,5) have "map_of rows key = Some v" by simp
  then have "read_key w (h, self) key = (Inr v, (h, self))"
    by (simp add: read_key_connected [OF assms(1-3)])
  then show ?thesis by (simp add: getitem_def)
qed

theorem getitem_falsy_value_witness:
  "connection connected_accessor = Some 0 \<and>
   \<not> is_closed (objs connected_heap 0) \<and>
   item_table example_world (db_path (objs connected_heap 0)) = Inr example_rows \<and>
   distinct (map fst example_rows) \<and>
   (''draft'', PStr []) \<in> set example_rows \<and>
   \<not> truthy (PStr []) \<and>
   read_key example_world (connected_heap, connected_accessor) ''draft'' =
     (Inr (PStr []), (connected_heap, connected_accessor)) \<and>
   getitem example_world (connected_heap, connected_accessor) ''draft'' =
     (Inl IndexError, (connected_heap, connected_accessor)) \<and>
   (''theme'', PStr ''dark'') \<in> set example_rows \<and>
   truthy (PStr ''dark'') \<and>
   getitem example_world (connected_heap, connected_accessor) ''theme'' =
     (Inr (PStr ''dark''), (connected_heap, connected_accessor))"
proof -
  have d: "(''draft'', PStr []) \<in> set example_rows"
    and t: "(''theme'', PStr ''dark'') \<in> set example_rows"
    by (simp_all add: example_rows_def)
  have fd: "\<not> truthy (PStr [])" and tt: "truthy (PStr ''dark'')"
    by simp_all
  from getitem_falsy_value [OF example_connected example_rows_distinct d] fd
  have "read_key example_world (connected_heap, connected_accessor) ''draft'' =
          (Inr (PStr []), (connected_heap, connected_accessor))"
    and "getitem example_world (connected_heap, connected_accessor) ''draft'' =
          (Inl IndexError, (connected_heap, connected_accessor))"
    by blast+
  moreover
  from getitem_falsy_value [OF example_connected example_rows_distinct t] tt
  have "getitem example_world (connected_heap, connected_accessor) ''theme'' =
          (Inr (PStr ''dark''), (connected_heap, connected_accessor))"
    by blast
  ultimately show ?thesis
    using example_connected example_rows_distinct d t fd tt by simp
qed

subsection \<open>Closing\<close>

text \<open>
  C8. The accessor is in one of two states, holding a connection or not, and
  \<open>is_connected\<close> tells which. \<open>close\<close> on a held connection closes that
  connection object and resets the accessor to hold none; on an accessor that
  holds none it changes nothing; applied twice it does what it does once. After
  \<open>close\<close>, \<open>is_connected\<close> is false and \<open>connect\<close> resolves the file
  again from the storage directory as it is then: an exception of the listing
  is raised; with no entry of a matching name the result is \<^verbatim>\<open>None\<close> and the
  accessor stays disconnected; otherwise a new connection object is opened on
  the path of the first matching entry, stored and returned, the store being
  changed at the new reference only (the closed object stays closed); an
  exception of \<^verbatim>\<open>sqlite3.connect\<close> is raised and the accessor stays
  disconnected. An accessor on which \<open>connect\<close> returned a connection is
  connected.
\<close>

theorem close_lifecycle:
  "(\<forall>c. connection self = Some c \<longrightarrow>
      close (h, self) = (Connection_close h c, self\<lparr>connection := None\<rparr>) \<and>
      is_closed (objs (fst (close (h, self))) c)) \<and>
   (connection self = None \<longrightarrow> close (h, self) = (h, self)) \<and>
   close (close (h, self)) = close (h, self) \<and>
   \<not> is_connected (close (h, self)) \<and>
   (\<forall>e. listdir w (storage self) = Inl e \<longrightarrow>
      connect w (close (h, self)) = (Inl e, close (h, self))) \<and>
   (\<forall>fs. listdir w (storage self) = Inr fs \<and> find (name_matches self) fs = None \<longrightarrow>
      connect w (close (h, self)) = (Inr None, close (h, self))) \<and>
   (\<forall>fs f e. listdir w (storage self) = Inr fs \<and> find (name_matches self) fs = Some f \<and>
        sqlite_open w (path_join (storage self) f) = Some e \<longrightarrow>
      connect w (close (h, self)) = (Inl e, close (h, self))) \<and>
   (\<forall>fs f. listdir w (storage self) = Inr fs \<and> find (name_matches self) fs = Some f \<and>
        sqlite_open w (path_join (storage self) f) = None \<longrightarrow>
      fst (connect w (close (h, self))) = Inr (Some (next_ref h)) \<and>
      connection (snd (snd (connect w (close (h, self))))) = Some (next_ref h) \<and>
      is_connected (snd (connect w (close (h, self)))) \<and>
      objs (fst (snd (connect w (close (h, self))))) (next_ref h) =
        \<lparr>db_path = path_join (storage self) f, is_closed = False\<rparr> \<and>
      next_ref (fst (snd (connect w (close (h, self))))) = Suc (next_ref h) \<and>
      (\<forall>r. r \<noteq> next_ref h \<longrightarrow>
         objs (fst (snd (connect w (close (h, self))))) r = objs (fst (close (h, self))) r)) \<and>
   (\<forall>c. fst (connect w (h, self)) = Inr (Some c) \<longrightarrow> is_connected (snd (connect w (h, self))))"
proof -
  have nm: "name_matches (self\<lparr>connection := None\<rparr>) = name_matches self"
    by (rule ext) (simp add: name_matches_def)
  have 1: "close (close (h, self)) = close (h, self)"
    by (cases "connection self") simp_all
  have 2: "\<not> is_connected (close (h, self))"
    by (cases "connection self") (simp_all add: is_connected_def)
  have 3: "connect w (close (h, self)) = (Inl e, close (h, self))"
    if "listdir w (storage self) = Inl e" for e
    using that by (cases "connection self") simp_all
  have 4: "connect w (close (h, self)) = (Inr None, close (h, self))"
    if "listdir w (storage self) = Inr fs" "find (name_matches self) fs = None" for fs
    using that by (cases "connection self") (simp_all add: connect_loop_find nm)
  have 5: "connect w (close (h, self)) = (Inl e, close (h, self))"
    if "listdir w (storage self) = Inr fs" "find (name_matches self) fs = Some f"
       "sqlite_open w (path_join (storage self) f) = Some e" for fs f e
    using that
    by (cases "connection self") (simp_all add: connect_loop_find nm sqlite3_connect_def)
  have 6: "fst (connect w (close (h, self))) = Inr (Some (next_ref h)) \<and>
      connection (snd (snd (connect w (close (h, self))))) = Some (next_ref h) \<and>
      is_connected (snd (connect w (close (h, self)))) \<and>
      objs (fst (snd (connect w (close (h, self))))) (next_ref h) =
        \<lparr>db_path = path_join (storage self) f, is_closed = False\<rparr> \<and>
      next_ref (fst (snd (connect w (close (h, self))))) = Suc (next_ref h) \<and>
      (\<forall>r. r \<noteq> next_ref h \<longrightarrow>
         objs (fst (snd (connect w (close (h, self))))) r = objs (fst (close (h, self))) r)"
    if "listdir w (storage self) = Inr fs" "find (name_matches self) fs = Some f"
       "sqlite_open w (path_join (storage self) f) = None" for fs f
    using that
    by (cases "connection self")
       (simp_all add: connect_loop_find nm sqlite3_connect_def Connection_close_def
          is_connected_def)
  have 7: "is_connected (snd (connect w (h, self)))"
    if "fst (connect w (h, self)) = Inr (Some c)" for c
    using that
    by (auto simp: is_connected_def connect_loop_find split: option.splits sum.splits prod.splits)
  have 8: "is_closed (objs (fst (close (h, self))) c)" if "connection self = Some c" for c
    using that by (simp add: Connection_close_def)
  have 9: "close (h, self) = (Connection_close h c, self\<lparr>connection := None\<rparr>)"
    if "connection self = Some c" for c
    using that by simp
  have 10: "close (h, self) = (h, self)" if "connection self = None"
    using that by simp
  show ?thesis
    apply (intro conjI allI impI)
    subgoal by (rule 9)
    subgoal by (rule 8)
    subgoal by (rule 10)
    subgoal by (rule 1)
    subgoal by (rule 2)
    subgoal by (rule 3)
    subgoal by (rule 4) blast+
    subgoal by (rule 5) blast+
    subgoal using 6 by blast
    subgoal using 6 by blast
    subgoal using 6 by blast
    subgoal using 6 by blast
    subgoal using 6 by blast
    subgoal using 6 by blast
    subgoal by (rule 7)
    done
qed

theorem close_lifecycle_witness:
  "connection connected_accessor = Some 0 \<and>
   close (connected_heap, connected_accessor) =
     (Connection_close connected_heap 0, connected_accessor\<lparr>connection := None\<rparr>) \<and>
   is_closed (objs (fst (close (connected_heap, connected_accessor))) 0) \<and>
   connection example_accessor = None \<and>
   close (empty_heap, example_accessor) = (empty_heap, example_accessor) \<and>
   \<not> is_connected (close (connected_heap, connected_accessor)) \<and>
   listdir offline_world (storage connected_accessor) = Inl OSError \<and>
   connect offline_world (close (connected_heap, connected_accessor)) =
     (Inl OSError, close (connected_heap, connected_accessor)) \<and>
   find (name_matches missing_accessor)
     [''http_example.com_0.localstorage'',
      ''https_example.com_0.localstorage-journal'',
      ''https_example.com_0.localstorage''] = None \<and>
   connect example_world (close (connected_heap, missing_accessor)) =
     (Inr None, close (connected_heap, missing_accessor)) \<and>
   sqlite_open locked_world example_db = Some OperationalError \<and>
   connect locked_world (close (connected_heap, connected_accessor)) =
     (Inl OperationalError, close (connected_heap, connected_accessor)) \<and>
   find (name_matches connected_accessor)
     [''http_example.com_0.localstorage'',
      ''https_example.com_0.localstorage-journal'',
      ''https_example.com_0.localstorage''] = Some ''https_example.com_0.localstorage'' \<and>
   sqlite_open example_world example_db = None \<and>
   fst (connect example_world (close (connected_heap, connected_accessor))) = Inr (Some 1) \<and>
   connection (snd (snd (connect example_world (close (connected_heap, connected_accessor))))) =
     Some 1 \<and>
   is_connected (snd (connect example_world (close (connected_heap, connected_accessor)))) \<and>
   objs (fst (snd (connect example_world (close (connected_heap, connected_accessor))))) 1 =
     \<lparr>db_path = example_db, is_closed = False\<rparr> \<and>
   is_closed (objs (fst (snd (connect example_world (close (connected_heap, connected_accessor))))) 0) \<and>
   fst (connect example_world (empty_heap, example_accessor)) = Inr (Some 0) \<and>
   is_connected (snd (connect example_world (empty_heap, example_accessor)))"
proof -
  have op: "sqlite_open example_world example_db = None"
    and lk: "sqlite_open locked_world example_db = Some OperationalError"
    by (simp_all add: example_world_def locked_world_def)
  have st: "storage connected_accessor = storage example_accessor"
    and nm: "name_matches connected_accessor = name_matches example_accessor"
    by (simp_all add: connected_accessor_def name_matches_def fun_eq_iff)
  have ls: "listdir example_world (storage connected_accessor) =
     Inr [''http_example.com_0.localstorage'',
          ''https_example.com_0.localstorage-journal'',
          ''https_example.com_0.localstorage'']"
    using example_listing(1) st by simp
  have lsk: "listdir locked_world (storage connected_accessor) =
     Inr [''http_example.com_0.localstorage'',
          ''https_example.com_0.localstorage-journal'',
          ''https_example.com_0.localstorage'']"
    using ls by (simp add: locked_world_def)
  have fm: "find (name_matches connected_accessor)
     [''http_example.com_0.localstorage'',
      ''https_example.com_0.localstorage-journal'',
      ''https_example.com_0.localstorage''] = Some ''https_example.com_0.localstorage''"
    using example_first_match(1) nm by simp
  have pj: "path_join (storage connected_accessor) ''https_example.com_0.localstorage'' =
              example_db"
    using example_path st by simp
  have off: "listdir offline_world (storage connected_accessor) = Inl OSError"
    by (simp add: offline_world_def)
  have nr: "next_ref connected_heap = 1"
    by (simp add: connected_heap_def)
  have op': "sqlite_open example_world
               (path_join (storage connected_accessor) ''https_example.com_0.localstorage'') = None"
    and lk': "sqlite_open locked_world
               (path_join (storage connected_accessor) ''https_example.com_0.localstorage'') =
               Some OperationalError"
    using op lk pj by simp_all
  note a = close_lifecycle [of connected_accessor connected_heap example_world]
  note b = close_lifecycle [of example_accessor empty_heap example_world]
  note c = close_lifecycle [of connected_accessor connected_heap offline_world]
  note d = close_lifecycle [of missing_accessor connected_heap example_world]
  note k = close_lifecycle [of connected_accessor connected_heap locked_world]
  note a1 = a [THEN conjunct1, rule_format, OF example_connected(1)]
  note b2 = b [THEN conjunct2, THEN conjunct1, rule_format, OF example_unconnected(1)]
  note a4 = a [THEN conjunct2, THEN conjunct2, THEN conjunct2, THEN conjunct1]
  note c5 = c [THEN conjunct2, THEN conjunct2, THEN conjunct2, THEN conjunct2,
               THEN conjunct1, rule_format, OF off]
  note d6 = d [THEN conjunct2, THEN conjunct2, THEN conjunct2, THEN conjunct2,
               THEN conjunct2, THEN conjunct1, rule_format,
               OF conjI [OF example_listing(2) example_first_match(2)]]
  note k7 = k [THEN conjunct2, THEN conjunct2, THEN conjunct2, THEN conjunct2,
               THEN conjunct2, THEN conjunct2, THEN conjunct1, rule_format,
               OF conjI [OF lsk conjI [OF fm lk']]]
  note a8 = a [THEN conjunct2, THEN conjunct2, THEN conjunct2, THEN conjunct2,
               THEN conjunct2, THEN conjunct2, THEN conjunct2, THEN conjunct1,
               THEN spec, THEN spec, THEN mp, OF conjI [OF ls conjI [OF fm op']]]
  note b9 = b [THEN conjunct2, THEN conjunct2, THEN conjunct2, THEN conjunct2,
               THEN conjunct2, THEN conjunct2, THEN conjunct2, THEN conjunct2,
               rule_format, OF example_connect]
  from a1 [THEN conjunct1]
  have 1: "close (connected_heap, connected_accessor) =
             (Connection_close connected_heap 0, connected_accessor\<lparr>connection := None\<rparr>)" .
  from a1 [THEN conjunct2]
  have 2: "is_closed (objs (fst (close (connected_heap, connected_accessor))) 0)" .
  from b2
  have 3: "close (empty_heap, example_accessor) = (empty_heap, example_accessor)" .
  from a4 have 4: "\<not> is_connected (close (connected_heap, connected_accessor))" .
  from c5
  have 5: "connect offline_world (close (connected_heap, connected_accessor)) =
             (Inl OSError, close (connected_heap, connected_accessor))" .
  from d6
  have 6: "connect example_world (close (connected_heap, missing_accessor)) =
             (Inr None, close (connected_heap, missing_accessor))" .
  from k7
  have 7: "connect locked_world (close (connected_heap, connected_accessor)) =
             (Inl OperationalError, close (connected_heap, connected_accessor))" .
  from a8
  have r1: "fst (connect example_world (close (connected_heap, connected_accessor))) =
             Inr (Some 1)"
    and r2: "connection (snd (snd (connect example_world
               (close (connected_heap, connected_accessor))))) = Some 1"
    and r3: "is_connected (snd (connect example_world
               (close (connected_heap, connected_accessor))))"
    and r4: "objs (fst (snd (connect example_world
               (close (connected_heap, connected_accessor))))) 1 =
               \<lparr>db_path = example_db, is_closed = False\<rparr>"
    and r5: "objs (fst (snd (connect example_world
               (close (connected_heap, connected_accessor))))) 0 =
             objs (fst (close (connected_heap, connected_accessor))) 0"
    using nr pj by (simp_all del: connect.simps close.simps)
  from r5 2
  have 8: "is_closed (objs (fst (snd (connect example_world
             (close (connected_heap, connected_accessor))))) 0)"
    by simp
  from b9
  have 9: "is_connected (snd (connect example_world (empty_heap, example_accessor)))" .
  show ?thesis
    apply (intro conjI)
    subgoal by (rule example_connected(1))
    subgoal by (rule 1)
    subgoal by (rule 2)
    subgoal by (rule example_unconnected(1))
    subgoal by (rule 3)
    subgoal by (rule 4)
    subgoal by (rule off)
    subgoal by (rule 5)
    subgoal by (rule example_first_match(2))
    subgoal by (rule 6)
    subgoal by (rule lk)
    subgoal by (rule 7)
    subgoal by (rule fm)
    subgoal by (rule op)
    subgoal by (rule r1)
    subgoal by (rule r2)
    subgoal by (rule r3)
    subgoal by (rule r4)
    subgoal by (rule 8)
    subgoal by (rule example_connect)
    subgoal by (rule 9)
    done
qed

end
